theory Spec2Isabelle
  imports Main "HOL-Library.Monad_Syntax" "HOL-Library.Product_Lexorder"
begin

section \<open>The runtime log parser (parser.py)\<close>

text \<open>
  A shallow embedding of \<^verbatim>\<open>parser.py\<close>: the class \<^verbatim>\<open>RuntimeLogLine\<close> with its method
  \<^verbatim>\<open>parse_log_line\<close>, the function \<^verbatim>\<open>read_log_files\<close> and the script at the end of the
  module. Every Python exception is a value of the type \<open>error\<close>; a function that can
  raise returns \<open>error + 'a\<close>, with \<open>Inl\<close> for the exception.

  Text is a \<open>string\<close>. A character stands for the code point of the same number, so the
  strings of the model are the Python strings over U+0000 to U+00FF; the library
  functions below (\<^verbatim>\<open>str.strip\<close>, \<^verbatim>\<open>str.upper\<close>, \<^verbatim>\<open>str.split\<close>, \<^verbatim>\<open>datetime.strptime\<close>,
  ...) are written from the documented behaviour of CPython on such strings.
\<close>

subsection \<open>Exceptions\<close>

datatype error = ValueError | IndexError | OSError

subsection \<open>Strings and lists of the Python library\<close>

text \<open>
  \<^verbatim>\<open>str.isspace\<close> on one character: the white space of Unicode below U+0100. It is the
  set \<^verbatim>\<open>str.strip()\<close> removes and the class \<^verbatim>\<open>\s\<close> of a regular expression on \<^verbatim>\<open>str\<close>.
\<close>

definition isspace :: "char \<Rightarrow> bool" where
  "isspace c \<longleftrightarrow> c \<in> set [CHR 0x09, CHR 0x0A, CHR 0x0B, CHR 0x0C, CHR 0x0D,
     CHR 0x1C, CHR 0x1D, CHR 0x1E, CHR 0x1F, CHR 0x20, CHR 0x85, CHR 0xA0]"

definition lstrip :: "string \<Rightarrow> string" where
  "lstrip s = dropWhile isspace s"

definition rstrip :: "string \<Rightarrow> string" where
  "rstrip s = rev (dropWhile isspace (rev s))"

definition strip :: "string \<Rightarrow> string" where
  "strip s = rstrip (lstrip s)"

text \<open>
  \<^verbatim>\<open>str.upper\<close>. The lower-case letters below U+0100 and their capitals, in the order of
  their code points: a to z, and U+00E0 to U+00FE without the division sign U+00F7.
  The sharp s (U+00DF) becomes two characters. The capitals of the micro sign (U+00B5)
  and of y with diaeresis (U+00FF) are U+039C and U+0178, outside the characters of
  the model: both are left as they are here. Neither they nor their capitals are ASCII, so
  a comparison of the result with an ASCII word, the only use the program makes of it,
  comes out the same.
\<close>

definition lowercase :: string where
  "lowercase = ''abcdefghijklmnopqrstuvwxyz'' @
     [CHR 0xE0, CHR 0xE1, CHR 0xE2, CHR 0xE3, CHR 0xE4, CHR 0xE5, CHR 0xE6, CHR 0xE7,
      CHR 0xE8, CHR 0xE9, CHR 0xEA, CHR 0xEB, CHR 0xEC, CHR 0xED, CHR 0xEE, CHR 0xEF,
      CHR 0xF0, CHR 0xF1, CHR 0xF2, CHR 0xF3, CHR 0xF4, CHR 0xF5, CHR 0xF6,
      CHR 0xF8, CHR 0xF9, CHR 0xFA, CHR 0xFB, CHR 0xFC, CHR 0xFD, CHR 0xFE]"

definition uppercase :: string where
  "uppercase = ''ABCDEFGHIJKLMNOPQRSTUVWXYZ'' @
     [CHR 0xC0, CHR 0xC1, CHR 0xC2, CHR 0xC3, CHR 0xC4, CHR 0xC5, CHR 0xC6, CHR 0xC7,
      CHR 0xC8, CHR 0xC9, CHR 0xCA, CHR 0xCB, CHR 0xCC, CHR 0xCD, CHR 0xCE, CHR 0xCF,
      CHR 0xD0, CHR 0xD1, CHR 0xD2, CHR 0xD3, CHR 0xD4, CHR 0xD5, CHR 0xD6,
      CHR 0xD8, CHR 0xD9, CHR 0xDA, CHR 0xDB, CHR 0xDC, CHR 0xDD, CHR 0xDE]"

definition upper_char :: "char \<Rightarrow> string" where
  "upper_char c =
     (if c = CHR 0xDF then ''SS''
      else case map_of (zip lowercase uppercase) c of Some u \<Rightarrow> [u] | None \<Rightarrow> [c])"

definition upper :: "string \<Rightarrow> string" where
  "upper s = concat (map upper_char s)"

text \<open>\<^verbatim>\<open>s.startswith(p)\<close> and \<^verbatim>\<open>s.endswith(p)\<close>.\<close>

definition startswith :: "string \<Rightarrow> string \<Rightarrow> bool" where
  "startswith s p \<longleftrightarrow> take (length p) s = p"

definition endswith :: "string \<Rightarrow> string \<Rightarrow> bool" where
  "endswith s p \<longleftrightarrow> length p \<le> length s \<and> drop (length s - length p) s = p"

text \<open>
  \<^verbatim>\<open>s.split(sep, maxsplit)\<close> for a separator of one character: the text is cut at the
  first \<open>maxsplit\<close> separators, from the left; a negative \<open>maxsplit\<close> (the default is -1)
  sets no limit. The result is never empty.
\<close>

function split :: "string \<Rightarrow> char \<Rightarrow> int \<Rightarrow> string list" where
  "split s sep maxsplit =
     (if maxsplit = 0 \<or> sep \<notin> set s then [s]
      else takeWhile (\<lambda>c. c \<noteq> sep) s
           # split (tl (dropWhile (\<lambda>c. c \<noteq> sep) s)) sep (maxsplit - 1))"
  by pat_completeness auto
termination
proof (relation "measure (\<lambda>(s, sep, maxsplit). length s)")
  show "wf (measure (\<lambda>(s, sep, maxsplit). length s))"
    by simp
next
  fix s :: string and sep :: char and maxsplit :: int
  assume "\<not> (maxsplit = 0 \<or> sep \<notin> set s)"
  then have "dropWhile (\<lambda>c. c \<noteq> sep) s \<noteq> []"
    by (simp add: dropWhile_eq_Nil_conv)
  moreover have "length (dropWhile (\<lambda>c. c \<noteq> sep) s) \<le> length s"
    by (rule length_dropWhile_le)
  ultimately have "length (tl (dropWhile (\<lambda>c. c \<noteq> sep) s)) < length s"
    by (cases "dropWhile (\<lambda>c. c \<noteq> sep) s") simp_all
  then show "((tl (dropWhile (\<lambda>c. c \<noteq> sep) s), sep, maxsplit - 1), (s, sep, maxsplit))
      \<in> measure (\<lambda>(s, sep, maxsplit). length s)"
    by simp
qed

declare split.simps [simp del]

text \<open>\<^verbatim>\<open>sep.join(xs)\<close>.\<close>

fun join :: "string \<Rightarrow> string list \<Rightarrow> string" where
  "join sep [] = []"
| "join sep [x] = x"
| "join sep (x # y # ys) = x @ sep @ join sep (y # ys)"

text \<open>
  \<^verbatim>\<open>xs[i]\<close> on a string or a list: a negative index counts from the end, an index out
  of range raises \<^verbatim>\<open>IndexError\<close>.
\<close>

definition getitem :: "'a list \<Rightarrow> int \<Rightarrow> error + 'a" where
  "getitem xs i =
     (if 0 \<le> i \<and> i < int (length xs) then Inr (xs ! nat i)
      else if i < 0 \<and> - int (length xs) \<le> i then Inr (xs ! nat (int (length xs) + i))
      else Inl IndexError)"

text \<open>\<^verbatim>\<open>xs.index(x)\<close>: the first position of \<open>x\<close>, or \<^verbatim>\<open>ValueError\<close>.\<close>

fun index :: "'a list \<Rightarrow> 'a \<Rightarrow> error + nat" where
  "index [] x = Inl ValueError"
| "index (y # ys) x =
     (if y = x then Inr 0
      else case index ys x of Inl e \<Rightarrow> Inl e | Inr i \<Rightarrow> Inr (Suc i))"


subsection \<open>datetime\<close>

text \<open>
  A naive \<^verbatim>\<open>datetime\<close>: the seven fields its constructor takes. \<^verbatim>\<open>datetime.min\<close> is
  the first day of year 1, at midnight.
\<close>

record datetime =
  year :: nat
  month :: nat
  day :: nat
  hour :: nat
  minute :: nat
  second :: nat
  microsecond :: nat

definition datetime_min :: datetime where
  "datetime_min = \<lparr>year = 1, month = 1, day = 1, hour = 0, minute = 0, second = 0,
     microsecond = 0\<rparr>"

definition is_leap :: "nat \<Rightarrow> bool" where
  "is_leap y \<longleftrightarrow> y mod 4 = 0 \<and> (y mod 100 \<noteq> 0 \<or> y mod 400 = 0)"

definition days_in_month :: "nat \<Rightarrow> nat \<Rightarrow> nat" where
  "days_in_month y m =
     (if m = 2 then (if is_leap y then 29 else 28)
      else if m \<in> set [4, 6, 9, 11] then 30 else 31)"

text \<open>
  The constructor \<^verbatim>\<open>datetime(year, month, day, hour, minute, second, microsecond)\<close>:
  a field out of its range raises \<^verbatim>\<open>ValueError\<close>.
\<close>

definition new_datetime ::
  "nat \<Rightarrow> nat \<Rightarrow> nat \<Rightarrow> nat \<Rightarrow> nat \<Rightarrow> nat \<Rightarrow> nat \<Rightarrow> error + datetime" where
  "new_datetime y mo d h mi s us =
     (if 1 \<le> y \<and> y \<le> 9999 \<and> 1 \<le> mo \<and> mo \<le> 12 \<and> 1 \<le> d \<and> d \<le> days_in_month y mo
         \<and> h \<le> 23 \<and> mi \<le> 59 \<and> s \<le> 59 \<and> us \<le> 999999
      then Inr \<lparr>year = y, month = mo, day = d, hour = h, minute = mi, second = s,
                microsecond = us\<rparr>
      else Inl ValueError)"

subsection \<open>datetime.strptime with the format of the log\<close>

text \<open>
  \<^verbatim>\<open>datetime.strptime(data_string, '%d-%m-%Y %H:%M:%S.%f')\<close>. The library turns the
  format into a regular expression, one named group for each directive, white space
  of the format into \<^verbatim>\<open>\s+\<close>:
  \<^verbatim>\<open>(?P<d>3[0-1]|[1-2]\d|0[1-9]|[1-9]| [1-9])-(?P<m>1[0-2]|0[1-9]|[1-9])-(?P<Y>\d\d\d\d)\s+\<close>
  \<^verbatim>\<open>(?P<H>2[0-3]|[0-1]\d|\d):(?P<M>[0-5]\d|\d):(?P<S>6[0-1]|[0-5]\d|\d)\.(?P<f>[0-9]{1,6})\<close>
  It matches the expression at the start of the text, raises \<^verbatim>\<open>ValueError\<close> when there is
  no match or when text is left after the match, converts every group with \<^verbatim>\<open>int\<close> (the
  fraction filled with zeros on the right to six digits) and calls the constructor.

  A scanner reads a prefix of its input and returns it with the rest of the input.
  The alternatives of a group are tried in their order and the first that reads is
  kept. Nothing is lost against the search of the regular expression: the
  alternatives that come first are the longer ones, and where one of them has read,
  the second character is a digit, so the shorter alternative could not be followed
  by the separator the pattern has next. The lemmas \<open>strptime_sound\<close> and
  \<open>strptime_complete\<close> below show it: the scanners read exactly the texts that the
  groups of the expression describe.
\<close>

type_synonym scanner = "string \<Rightarrow> (string \<times> string) option"

definition cls :: "string \<Rightarrow> scanner" where
  "cls members s = (case s of [] \<Rightarrow> None | c # r \<Rightarrow> if c \<in> set members then Some ([c], r) else None)"

definition lit :: "char \<Rightarrow> scanner" where
  "lit c = cls [c]"

fun sq :: "scanner list \<Rightarrow> scanner" where
  "sq [] s = Some ([], s)"
| "sq (p # ps) s =
     (case p s of None \<Rightarrow> None
      | Some (a, r) \<Rightarrow> (case sq ps r of None \<Rightarrow> None | Some (b, r') \<Rightarrow> Some (a @ b, r')))"

fun alt :: "scanner list \<Rightarrow> scanner" where
  "alt [] s = None"
| "alt (p # ps) s = (case p s of None \<Rightarrow> alt ps s | Some x \<Rightarrow> Some x)"

text \<open>\<open>many P lo hi\<close> is the greedy repetition \<^verbatim>\<open>P{lo,hi}\<close>, \<open>many1 P\<close> is \<^verbatim>\<open>P+\<close>.\<close>

definition many :: "(char \<Rightarrow> bool) \<Rightarrow> nat \<Rightarrow> nat \<Rightarrow> scanner" where
  "many P lo hi s =
     (let m = take hi (takeWhile P s)
      in if length m < lo then None else Some (m, drop (length m) s))"

definition many1 :: "(char \<Rightarrow> bool) \<Rightarrow> scanner" where
  "many1 P s = (if takeWhile P s = [] then None else Some (takeWhile P s, dropWhile P s))"

definition digits :: string where
  "digits = ''0123456789''"

definition isdigit :: "char \<Rightarrow> bool" where
  "isdigit c \<longleftrightarrow> c \<in> set digits"

definition re_d :: scanner where
  "re_d = alt [sq [lit (CHR ''3''), cls ''01''], sq [cls ''12'', cls digits],
               sq [lit (CHR ''0''), cls ''123456789''], cls ''123456789'',
               sq [lit (CHR '' ''), cls ''123456789'']]"

definition re_m :: scanner where
  "re_m = alt [sq [lit (CHR ''1''), cls ''012''], sq [lit (CHR ''0''), cls ''123456789''],
               cls ''123456789'']"

definition re_Y :: scanner where
  "re_Y = sq [cls digits, cls digits, cls digits, cls digits]"

definition re_H :: scanner where
  "re_H = alt [sq [lit (CHR ''2''), cls ''0123''], sq [cls ''01'', cls digits], cls digits]"

definition re_M :: scanner where
  "re_M = alt [sq [cls ''012345'', cls digits], cls digits]"

definition re_S :: scanner where
  "re_S = alt [sq [lit (CHR ''6''), cls ''01''], sq [cls ''012345'', cls digits], cls digits]"

definition re_f :: scanner where
  "re_f = many isdigit 1 6"

text \<open>The groups d, m, Y, H, M, S, f of the match, and the text after it.\<close>

definition format_regex ::
  "string \<Rightarrow> ((string \<times> string \<times> string \<times> string \<times> string \<times> string \<times> string) \<times> string) option" where
  "format_regex s0 = do {
     (d, s1) \<leftarrow> re_d s0;
     (x1, s2) \<leftarrow> lit (CHR ''-'') s1;
     (m, s3) \<leftarrow> re_m s2;
     (x2, s4) \<leftarrow> lit (CHR ''-'') s3;
     (Y, s5) \<leftarrow> re_Y s4;
     (x3, s6) \<leftarrow> many1 isspace s5;
     (H, s7) \<leftarrow> re_H s6;
     (x4, s8) \<leftarrow> lit (CHR '':'') s7;
     (M, s9) \<leftarrow> re_M s8;
     (x5, s10) \<leftarrow> lit (CHR '':'') s9;
     (S, s11) \<leftarrow> re_S s10;
     (x6, s12) \<leftarrow> lit (CHR ''.'') s11;
     (f, s13) \<leftarrow> re_f s12;
     Some ((d, m, Y, H, M, S, f), s13)
   }"

text \<open>
  \<^verbatim>\<open>int(s)\<close> for the text of a group: decimal digits, after a space in one alternative
  of the day (\<^verbatim>\<open>int\<close> skips white space around the number).
\<close>

definition digit_of :: "char \<Rightarrow> nat" where
  "digit_of c = of_char c - 48"

definition py_int :: "string \<Rightarrow> nat" where
  "py_int s = foldl (\<lambda>n c. 10 * n + digit_of c) 0 (strip s)"

definition strptime :: "string \<Rightarrow> error + datetime" where
  "strptime data_string =
     (case format_regex data_string of
        None \<Rightarrow> Inl ValueError
      | Some ((d, m, Y, H, M, S, f), rest) \<Rightarrow>
          if rest \<noteq> [] then Inl ValueError
          else new_datetime (py_int Y) (py_int m) (py_int d) (py_int H) (py_int M) (py_int S)
                 (py_int (f @ replicate (6 - length f) (CHR ''0''))))"

subsection \<open>RuntimeLogLine\<close>

definition LOG_LEVELS :: "string list" where
  "LOG_LEVELS = [''ERROR'', ''WARNING'', ''INFO'', ''DEBUG'', ''VERBOSE1'', ''VERBOSE2'']"

record RuntimeLogLine =
  timestamp :: datetime
  level :: int
  message :: string

text \<open>
  The body of the \<^verbatim>\<open>try\<close> statement of \<^verbatim>\<open>parse_log_line\<close>. Unpacking the list of the
  split into six names raises \<^verbatim>\<open>ValueError\<close> unless the list has six elements.
\<close>

definition protected :: "string \<Rightarrow> bool" where
  "protected msg \<longleftrightarrow> startswith msg ''Error invoking '' \<or> startswith msg ''Error executing ''
     \<or> startswith msg ''Error running ''"

definition try_block :: "string \<Rightarrow> error + datetime \<times> int \<times> string" where
  "try_block log_line =
     (let parts = split log_line (CHR '';'') 5 in
      if length parts \<noteq> 6 then Inl ValueError
      else
        let timestamp_str = parts ! 0; level_str = parts ! 1; msg = parts ! 4 in
        case (if protected msg then getitem (split msg (CHR '':'') (- 1)) 0 else Inr msg) of
          Inl e \<Rightarrow> Inl e
        | Inr msg' \<Rightarrow>
            (case strptime timestamp_str of
               Inl e \<Rightarrow> Inl e
             | Inr ts \<Rightarrow>
                 (case index LOG_LEVELS (upper level_str) of
                    Inl e \<Rightarrow> Inl e
                  | Inr lvl \<Rightarrow> Inr (ts, int lvl, msg'))))"

text \<open>The value of the \<^verbatim>\<open>except ValueError\<close> branch.\<close>

definition invalid :: "datetime \<times> int \<times> string" where
  "invalid = (datetime_min, - 1, ''Invalid log line format'')"

definition parse_log_line :: "string \<Rightarrow> error + datetime \<times> int \<times> string" where
  "parse_log_line log_line =
     (case try_block log_line of
        Inl ValueError \<Rightarrow> Inr invalid
      | Inl e \<Rightarrow> Inl e
      | Inr r \<Rightarrow> Inr r)"

text \<open>\<^verbatim>\<open>__init__\<close>: the three values become the fields of the object.\<close>

definition RuntimeLogLine_init :: "string \<Rightarrow> error + RuntimeLogLine" where
  "RuntimeLogLine_init log_line =
     (case parse_log_line log_line of
        Inl e \<Rightarrow> Inl e
      | Inr (t, l, m) \<Rightarrow> Inr \<lparr>timestamp = t, level = l, message = m\<rparr>)"

subsection \<open>read_log_files\<close>

text \<open>
  Iterating over a text file yields its lines, each with the line feed that ends it;
  the last line has none when the text does not end with one. The text is the file as
  decoded, every line end already a line feed.
\<close>

fun lines_from :: "string \<Rightarrow> string \<Rightarrow> string list" where
  "lines_from cur [] = (if cur = [] then [] else [cur])"
| "lines_from cur (c # cs) =
     (if c = CHR 0x0A then (cur @ [c]) # lines_from [] cs else lines_from (cur @ [c]) cs)"

definition file_lines :: "string \<Rightarrow> string list" where
  "file_lines text = lines_from [] text"

text \<open>
  The condition \<^verbatim>\<open>line.strip() and line[2] == '-' and line[5] == '-'\<close>: \<^verbatim>\<open>and\<close>
  evaluates its right operand only when the left one holds.
\<close>

definition is_new_entry :: "string \<Rightarrow> error + bool" where
  "is_new_entry line =
     (if strip line = [] then Inr False
      else case getitem line 2 of
        Inl e \<Rightarrow> Inl e
      | Inr c \<Rightarrow>
          if c \<noteq> CHR ''-'' then Inr False
          else (case getitem line 5 of Inl e \<Rightarrow> Inl e | Inr c' \<Rightarrow> Inr (c' = CHR ''-'')))"

text \<open>
  \<^verbatim>\<open>log_contents.append(RuntimeLogLine(' '.join(log_entry).strip()))\<close>. The constructor
  is the parameter \<open>mk\<close> of the loops, so that the texts it is called with can be
  observed; \<^verbatim>\<open>read_log_files\<close> passes \<open>RuntimeLogLine_init\<close>.
\<close>

definition append_entry ::
  "(string \<Rightarrow> error + 'a) \<Rightarrow> 'a list \<Rightarrow> string list \<Rightarrow> error + 'a list" where
  "append_entry mk log_contents log_entry =
     (case mk (strip (join '' '' log_entry)) of
        Inl e \<Rightarrow> Inl e
      | Inr x \<Rightarrow> Inr (log_contents @ [x]))"

text \<open>The loop \<^verbatim>\<open>for line in file\<close>, on the lists \<open>log_contents\<close> and \<open>log_entry\<close>.\<close>

fun for_line ::
  "(string \<Rightarrow> error + 'a) \<Rightarrow> string list \<Rightarrow> 'a list \<Rightarrow> string list
     \<Rightarrow> error + 'a list \<times> string list" where
  "for_line mk [] log_contents log_entry = Inr (log_contents, log_entry)"
| "for_line mk (line # rest) log_contents log_entry =
     (case is_new_entry line of
        Inl e \<Rightarrow> Inl e
      | Inr new \<Rightarrow>
          if new \<and> log_entry \<noteq> [] then
            (case append_entry mk log_contents log_entry of
               Inl e \<Rightarrow> Inl e
             | Inr log_contents' \<Rightarrow> for_line mk rest log_contents' ([] @ [strip line]))
          else for_line mk rest log_contents (log_entry @ [strip line]))"

text \<open>The body of the \<^verbatim>\<open>with\<close> statement: the loop, then the last entry.\<close>

definition read_file ::
  "(string \<Rightarrow> error + 'a) \<Rightarrow> string list \<Rightarrow> 'a list \<Rightarrow> error + 'a list" where
  "read_file mk file log_contents =
     (case for_line mk file log_contents [] of
        Inl e \<Rightarrow> Inl e
      | Inr (log_contents', log_entry) \<Rightarrow>
          if log_entry \<noteq> [] then append_entry mk log_contents' log_entry
          else Inr log_contents')"

text \<open>
  The folder is the list \<^verbatim>\<open>os.listdir\<close> returns, each name with the text of the file,
  or \<open>None\<close> when it cannot be opened or decoded: \<^verbatim>\<open>open\<close> or the iteration then raises
  \<^verbatim>\<open>OSError\<close> (or \<^verbatim>\<open>UnicodeDecodeError\<close>), which no statement of the program catches.
\<close>

type_synonym folder = "(string \<times> string option) list"

fun for_filename ::
  "(string \<Rightarrow> error + 'a) \<Rightarrow> folder \<Rightarrow> 'a list \<Rightarrow> error + 'a list" where
  "for_filename mk [] log_contents = Inr log_contents"
| "for_filename mk ((filename, file) # rest) log_contents =
     (if endswith filename ''.log'' then
        (case file of
           None \<Rightarrow> Inl OSError
         | Some text \<Rightarrow>
             (case read_file mk (file_lines text) log_contents of
                Inl e \<Rightarrow> Inl e
              | Inr log_contents' \<Rightarrow> for_filename mk rest log_contents'))
      else for_filename mk rest log_contents)"

definition read_log_files :: "folder \<Rightarrow> error + RuntimeLogLine list" where
  "read_log_files logs_folder = for_filename RuntimeLogLine_init logs_folder []"

subsection \<open>The script\<close>










subsection \<open>The specification's words\<close>

text \<open>
  The boundary test as the specification words it: the line is not blank, and its
  characters at the indexes 2 and 5 are hyphens; a line of fewer than six characters
  does not match.
\<close>

definition boundary :: "string \<Rightarrow> bool" where
  "boundary line \<longleftrightarrow> strip line \<noteq> [] \<and> 6 \<le> length line \<and> line ! 2 = CHR ''-''
     \<and> line ! 5 = CHR ''-''"

text \<open>
  The logical entries of a file: the first line opens an entry, every boundary line
  after it opens the next one, and an entry holds the lines up to the next boundary
  line.
\<close>

function logical_entries :: "string list \<Rightarrow> string list list" where
  "logical_entries [] = []"
| "logical_entries (l # ls) =
     (l # takeWhile (\<lambda>x. \<not> boundary x) ls) # logical_entries (dropWhile (\<lambda>x. \<not> boundary x) ls)"
  by pat_completeness auto
termination
proof (relation "measure length")
  show "wf (measure length)"
    by simp
next
  fix l :: string and ls :: "string list"
  have "length (dropWhile (\<lambda>x. \<not> boundary x) ls) \<le> length ls"
    by (rule length_dropWhile_le)
  then show "(dropWhile (\<lambda>x. \<not> boundary x) ls, l # ls) \<in> measure length"
    by simp
qed

text \<open>The raw text of a logical entry, as the merge rule gives it.\<close>

definition merged :: "string list \<Rightarrow> string" where
  "merged entry = join '' '' (map strip entry)"

text \<open>
  The texts \<^verbatim>\<open>strptime\<close> reads for the fields of the format: a number of one or two
  digits within its range (the day also as a space and a digit), a year of four
  digits, white space, a fraction of one to six digits.
\<close>

definition digit_between :: "char \<Rightarrow> nat \<Rightarrow> nat \<Rightarrow> bool" where
  "digit_between c lo hi \<longleftrightarrow> isdigit c \<and> lo \<le> digit_of c \<and> digit_of c \<le> hi"

definition numeral_text :: "string \<Rightarrow> nat \<Rightarrow> nat \<Rightarrow> bool" where
  "numeral_text g lo hi \<longleftrightarrow> (length g = 1 \<or> length g = 2) \<and> list_all isdigit g
     \<and> lo \<le> py_int g \<and> py_int g \<le> hi"

definition day_text :: "string \<Rightarrow> bool" where
  "day_text g \<longleftrightarrow> numeral_text g 1 31
     \<or> (length g = 2 \<and> g ! 0 = CHR '' '' \<and> digit_between (g ! 1) 1 9)"

definition year_text :: "string \<Rightarrow> bool" where
  "year_text g \<longleftrightarrow> length g = 4 \<and> list_all isdigit g"

definition space_text :: "string \<Rightarrow> bool" where
  "space_text g \<longleftrightarrow> g \<noteq> [] \<and> list_all isspace g"

definition fraction_text :: "string \<Rightarrow> bool" where
  "fraction_text g \<longleftrightarrow> 1 \<le> length g \<and> length g \<le> 6 \<and> list_all isdigit g"

text \<open>
  The exact pattern of the specification, \<^verbatim>\<open>DD-MM-YYYY HH:MM:SS.ffffff\<close>: 26 characters,
  digits but for the two hyphens, the space, the two colons and the full stop.
\<close>

definition exact_pattern :: "string \<Rightarrow> bool" where
  "exact_pattern ts \<longleftrightarrow> length ts = 26
     \<and> list_all isdigit (take 2 ts) \<and> ts ! 2 = CHR ''-''
     \<and> list_all isdigit (take 2 (drop 3 ts)) \<and> ts ! 5 = CHR ''-''
     \<and> list_all isdigit (take 4 (drop 6 ts)) \<and> ts ! 10 = CHR '' ''
     \<and> list_all isdigit (take 2 (drop 11 ts)) \<and> ts ! 13 = CHR '':''
     \<and> list_all isdigit (take 2 (drop 14 ts)) \<and> ts ! 16 = CHR '':''
     \<and> list_all isdigit (take 2 (drop 17 ts)) \<and> ts ! 19 = CHR ''.''
     \<and> list_all isdigit (drop 20 ts)"

section \<open>Properties\<close>

subsection \<open>Evaluation\<close>

lemma replicate_num: "replicate (numeral k) x = x # replicate (pred_numeral k) x"
  by (simp add: numeral_eq_Suc)

lemmas scan_defs = re_d_def re_m_def re_Y_def re_H_def re_M_def re_S_def re_f_def lit_def
  cls_def many_def many1_def isdigit_def digits_def isspace_def
lemmas strptime_defs = strptime_def format_regex_def scan_defs py_int_def digit_of_def
  strip_def lstrip_def rstrip_def new_datetime_def days_in_month_def is_leap_def replicate_num
lemmas upper_defs = upper_def upper_char_def lowercase_def uppercase_def
lemmas parse_defs = parse_log_line_def try_block_def split.simps protected_def startswith_def
  getitem_def LOG_LEVELS_def invalid_def datetime_min_def

subsection \<open>The parser raises nothing\<close>

lemma strptime_error: "strptime s = Inl e \<Longrightarrow> e = ValueError"
  by (auto simp: strptime_def new_datetime_def split: option.splits if_splits prod.splits)

lemma index_error: "index xs x = Inl e \<Longrightarrow> e = ValueError"
  by (induction xs arbitrary: e) (auto split: if_splits sum.splits)

lemma index_Inr: "index xs x = Inr i \<Longrightarrow> i < length xs \<and> xs ! i = x"
  by (induction xs arbitrary: i) (auto split: if_splits sum.splits)

lemma index_notin: "x \<notin> set xs \<Longrightarrow> index xs x = Inl ValueError"
  by (induction xs) auto

lemma index_in: "x \<in> set xs \<Longrightarrow> \<exists>i. index xs x = Inr i"
  by (induction xs) auto

lemma takeWhile_no_sep: "sep \<notin> set s \<Longrightarrow> takeWhile (\<lambda>c. c \<noteq> sep) s = s"
  by (induction s) auto

lemma split_first:
  "n \<noteq> 0 \<Longrightarrow> getitem (split s sep n) 0 = Inr (takeWhile (\<lambda>c. c \<noteq> sep) s)"
  by (subst split.simps) (simp add: getitem_def takeWhile_no_sep)

lemma try_block_Inl: "try_block s = Inl e \<Longrightarrow> e = ValueError"
  unfolding try_block_def Let_def
  by (auto split: if_splits sum.splits simp: split_first dest: strptime_error index_error)

lemma try_block_Inr:
  "try_block s = Inr r \<longleftrightarrow>
     length (split s (CHR '';'') 5) = 6 \<and>
     (\<exists>t i. strptime (split s (CHR '';'') 5 ! 0) = Inr t \<and>
        index LOG_LEVELS (upper (split s (CHR '';'') 5 ! 1)) = Inr i \<and>
        r = (t, int i,
             if protected (split s (CHR '';'') 5 ! 4)
             then takeWhile (\<lambda>c. c \<noteq> CHR '':'') (split s (CHR '';'') 5 ! 4)
             else split s (CHR '';'') 5 ! 4))"
  unfolding try_block_def Let_def
  by (auto split: if_splits sum.splits simp: split_first)

lemma parse_log_line_cases:
  "parse_log_line s = Inr invalid \<and> (\<exists>e. try_block s = Inl e)
   \<or> (\<exists>r. parse_log_line s = Inr r \<and> try_block s = Inr r)"
  unfolding parse_log_line_def
  by (cases "try_block s") (auto split: error.splits dest: try_block_Inl)

lemma length_LOG_LEVELS: "length LOG_LEVELS = 6"
  by (simp add: LOG_LEVELS_def)

text \<open>
  Claim C4. For every input string \<^verbatim>\<open>parse_log_line\<close> returns a value and raises nothing;
  when the split does not give six parts, or \<^verbatim>\<open>strptime\<close> raises on the first part, or
  the second part in upper case is not a word of \<open>LOG_LEVELS\<close>, the value is the
  triple of the \<^verbatim>\<open>except\<close> branch: \<^verbatim>\<open>datetime.min\<close>, -1 and the text "Invalid log line
  format".
\<close>

theorem parse_log_line_total:
  "(\<exists>r. parse_log_line log_line = Inr r) \<and>
   (length (split log_line (CHR '';'') 5) \<noteq> 6
      \<or> isl (strptime (split log_line (CHR '';'') 5 ! 0))
      \<or> upper (split log_line (CHR '';'') 5 ! 1) \<notin> set LOG_LEVELS
    \<longrightarrow> parse_log_line log_line = Inr invalid)"
proof
  show "\<exists>r. parse_log_line log_line = Inr r"
    using parse_log_line_cases[of log_line] by blast
next
  show "length (split log_line (CHR '';'') 5) \<noteq> 6
      \<or> isl (strptime (split log_line (CHR '';'') 5 ! 0))
      \<or> upper (split log_line (CHR '';'') 5 ! 1) \<notin> set LOG_LEVELS
    \<longrightarrow> parse_log_line log_line = Inr invalid"
  proof
    assume bad: "length (split log_line (CHR '';'') 5) \<noteq> 6
      \<or> isl (strptime (split log_line (CHR '';'') 5 ! 0))
      \<or> upper (split log_line (CHR '';'') 5 ! 1) \<notin> set LOG_LEVELS"
    have "\<not> (\<exists>r. try_block log_line = Inr r)"
    proof
      assume "\<exists>r. try_block log_line = Inr r"
      then obtain t i where
        "length (split log_line (CHR '';'') 5) = 6"
        "strptime (split log_line (CHR '';'') 5 ! 0) = Inr t"
        "index LOG_LEVELS (upper (split log_line (CHR '';'') 5 ! 1)) = Inr i"
        by (auto simp: try_block_Inr)
      with bad show False
        by (auto dest: index_notin)
    qed
    then show "parse_log_line log_line = Inr invalid"
      using parse_log_line_cases[of log_line] by auto
  qed
qed

theorem parse_log_line_total_witness:
  "length (split ''no separators'' (CHR '';'') 5) \<noteq> 6
   \<and> parse_log_line ''no separators'' = Inr invalid
   \<and> isl (strptime (split ''2023-02-01 10:00:00;ERROR;M;O;oops;'' (CHR '';'') 5 ! 0))
   \<and> parse_log_line ''2023-02-01 10:00:00;ERROR;M;O;oops;'' = Inr invalid
   \<and> upper (split ''01-02-2023 10:00:00.000000;FATAL;M;O;oops;'' (CHR '';'') 5 ! 1) \<notin> set LOG_LEVELS
   \<and> parse_log_line ''01-02-2023 10:00:00.000000;FATAL;M;O;oops;'' = Inr invalid"
proof -
  have a: "length (split ''no separators'' (CHR '';'') 5) \<noteq> 6"
    by (simp add: split.simps)
  have b: "isl (strptime (split ''2023-02-01 10:00:00;ERROR;M;O;oops;'' (CHR '';'') 5 ! 0))"
    by (simp add: split.simps strptime_defs)
  have c: "upper (split ''01-02-2023 10:00:00.000000;FATAL;M;O;oops;'' (CHR '';'') 5 ! 1)
      \<notin> set LOG_LEVELS"
    by (simp add: split.simps upper_defs LOG_LEVELS_def)
  show ?thesis
    using a b c parse_log_line_total[of "''no separators''"]
      parse_log_line_total[of "''2023-02-01 10:00:00;ERROR;M;O;oops;''"]
      parse_log_line_total[of "''01-02-2023 10:00:00.000000;FATAL;M;O;oops;''"]
    by blast
qed

subsection \<open>Splitting a line of six fields\<close>

lemma split_zero: "split s sep 0 = [s]"
  by (subst split.simps) simp

lemma split_field:
  assumes "sep \<notin> set a" and "n \<noteq> 0"
  shows "split (a @ sep # b) sep n = a # split b sep (n - 1)"
proof -
  have "takeWhile (\<lambda>c. c \<noteq> sep) (a @ sep # b) = a"
    using assms(1) by (induction a) auto
  moreover have "dropWhile (\<lambda>c. c \<noteq> sep) (a @ sep # b) = sep # b"
    using assms(1) by (induction a) auto
  ultimately show ?thesis
    using assms(2) by (subst split.simps) simp
qed

lemma length_split: "0 \<le> n \<Longrightarrow> length (split s sep n) \<le> nat n + 1"
proof (induction s sep n rule: split.induct)
  case (1 s sep maxsplit)
  show ?case
  proof (cases "maxsplit = 0 \<or> sep \<notin> set s")
    case True
    then show ?thesis
      by (subst split.simps) simp
  next
    case False
    with "1.prems" have "0 \<le> maxsplit - 1"
      by simp
    with "1.IH"[OF False] have
      "length (split (tl (dropWhile (\<lambda>c. c \<noteq> sep) s)) sep (maxsplit - 1)) \<le> nat (maxsplit - 1) + 1"
      by simp
    with False "1.prems" show ?thesis
      by (subst split.simps) (simp add: nat_diff_distrib)
  qed
qed

lemma split_six:
  assumes "CHR '';'' \<notin> set f1 \<union> set f2 \<union> set f3 \<union> set f4 \<union> set f5"
  shows "split (f1 @ '';'' @ f2 @ '';'' @ f3 @ '';'' @ f4 @ '';'' @ f5 @ '';'' @ f6) (CHR '';'') 5
    = [f1, f2, f3, f4, f5, f6]"
  using assms by (simp add: split_field split_zero)

lemma parse_fields:
  assumes "CHR '';'' \<notin> set ts \<union> set lvl \<union> set mo \<union> set ob \<union> set msg"
    and "strptime ts = Inr t"
    and "index LOG_LEVELS (upper lvl) = Inr i"
  shows "parse_log_line (ts @ '';'' @ lvl @ '';'' @ mo @ '';'' @ ob @ '';'' @ msg @ '';'' @ un)
    = Inr (t, int i, if protected msg then takeWhile (\<lambda>c. c \<noteq> CHR '':'') msg else msg)"
proof -
  let ?s = "ts @ '';'' @ lvl @ '';'' @ mo @ '';'' @ ob @ '';'' @ msg @ '';'' @ un"
  have "split ?s (CHR '';'') 5 = [ts, lvl, mo, ob, msg, un]"
    using assms(1) by (rule split_six)
  with assms(2,3) have "try_block ?s
      = Inr (t, int i, if protected msg then takeWhile (\<lambda>c. c \<noteq> CHR '':'') msg else msg)"
    by (simp add: try_block_Inr)
  then show ?thesis
    by (simp add: parse_log_line_def)
qed

lemma level_cases: "i < length LOG_LEVELS \<Longrightarrow> i = 0 \<or> i = 1 \<or> i = 2 \<or> i = 3 \<or> i = 4 \<or> i = 5"
  by (simp add: LOG_LEVELS_def) arith

lemma index_LOG_LEVELS: "i < length LOG_LEVELS \<Longrightarrow> index LOG_LEVELS (LOG_LEVELS ! i) = Inr i"
  by (drule level_cases) (auto simp: LOG_LEVELS_def)

lemma upper_char_semicolon: "upper_char (CHR '';'') = '';''"
  by (simp add: upper_defs)

lemma upper_semicolon: "CHR '';'' \<in> set tok \<Longrightarrow> CHR '';'' \<in> set (upper tok)"
  unfolding upper_def using upper_char_semicolon by (induction tok) auto

lemma level_no_semicolon: "i < length LOG_LEVELS \<Longrightarrow> CHR '';'' \<notin> set (LOG_LEVELS ! i)"
  by (drule level_cases) (auto simp: LOG_LEVELS_def)

subsection \<open>Lines of the log\<close>

lemma sample_line:
  "parse_log_line ''01-02-2023 10:00:00.000000;ERROR;M;O;oops;''
    = Inr (\<lparr>year = 2023, month = 2, day = 1, hour = 10, minute = 0, second = 0,
            microsecond = 0\<rparr>, 0, ''oops'')"
  by (simp add: parse_defs strptime_defs upper_defs)

lemma sample_timestamp:
  "strptime ''01-02-2023 10:00:00.000000''
    = Inr \<lparr>year = 2023, month = 2, day = 1, hour = 10, minute = 0, second = 0,
           microsecond = 0\<rparr>"
  by (simp add: strptime_defs)

text \<open>
  Claim C9. For every input string the level \<^verbatim>\<open>parse_log_line\<close> returns is -1 or an
  index of \<open>LOG_LEVELS\<close> (0 to 5); it is -1 exactly when the value returned is the triple
  of the \<^verbatim>\<open>except\<close> branch; and a level from 0 on means that the split gave six parts,
  that \<^verbatim>\<open>strptime\<close> read the first one into the timestamp returned, and that the second
  one in upper case is the word of \<open>LOG_LEVELS\<close> at the level.
\<close>

theorem level_invariant:
  "\<exists>t l m. parse_log_line s = Inr (t, l, m)
     \<and> (l = - 1 \<or> (0 \<le> l \<and> l < int (length LOG_LEVELS)))
     \<and> (l = - 1 \<longleftrightarrow> (t, l, m) = invalid)
     \<and> (0 \<le> l \<longrightarrow>
          length (split s (CHR '';'') 5) = 6
          \<and> strptime (split s (CHR '';'') 5 ! 0) = Inr t
          \<and> upper (split s (CHR '';'') 5 ! 1) = LOG_LEVELS ! nat l)"
proof -
  consider (bad) "parse_log_line s = Inr invalid"
    | (good) r where "parse_log_line s = Inr r" "try_block s = Inr r"
    using parse_log_line_cases[of s] by blast
  then show ?thesis
  proof cases
    case bad
    then show ?thesis
      by (simp add: invalid_def)
  next
    case good
    then obtain t i where six: "length (split s (CHR '';'') 5) = 6"
      and ts: "strptime (split s (CHR '';'') 5 ! 0) = Inr t"
      and ix: "index LOG_LEVELS (upper (split s (CHR '';'') 5 ! 1)) = Inr i"
      and r: "r = (t, int i,
             if protected (split s (CHR '';'') 5 ! 4)
             then takeWhile (\<lambda>c. c \<noteq> CHR '':'') (split s (CHR '';'') 5 ! 4)
             else split s (CHR '';'') 5 ! 4)"
      by (auto simp: try_block_Inr)
    from ix have "i < length LOG_LEVELS" "LOG_LEVELS ! i = upper (split s (CHR '';'') 5 ! 1)"
      by (auto dest: index_Inr)
    with good(1) six ts r show ?thesis
      by (simp add: invalid_def)
  qed
qed

theorem level_invariant_witness:
  "\<exists>t l m. parse_log_line ''01-02-2023 10:00:00.000000;ERROR;M;O;oops;'' = Inr (t, l, m)
     \<and> 0 \<le> l
     \<and> length (split ''01-02-2023 10:00:00.000000;ERROR;M;O;oops;'' (CHR '';'') 5) = 6
     \<and> strptime (split ''01-02-2023 10:00:00.000000;ERROR;M;O;oops;'' (CHR '';'') 5 ! 0) = Inr t
     \<and> upper (split ''01-02-2023 10:00:00.000000;ERROR;M;O;oops;'' (CHR '';'') 5 ! 1)
         = LOG_LEVELS ! nat l"
  using level_invariant[of "''01-02-2023 10:00:00.000000;ERROR;M;O;oops;''"]
  by (auto simp: sample_line)

text \<open>
  Claim C5. \<^verbatim>\<open>split(';', 5)\<close> gives at most six parts, and cuts a line of five fields
  without semicolon followed by any text into exactly these five fields and that
  text, with every semicolon the text has. Hence, when \<^verbatim>\<open>strptime\<close> reads the first
  field, the second in upper case is a word of \<open>LOG_LEVELS\<close> and the message has none of
  the three prefixes, \<^verbatim>\<open>parse_log_line\<close> returns the timestamp read, the index of the
  level and the message of the line.
\<close>

theorem split_round_trip:
  assumes "CHR '';'' \<notin> set ts \<union> set lvl \<union> set mo \<union> set ob \<union> set msg"
  shows "length (split s (CHR '';'') 5) \<le> 6
    \<and> split (ts @ '';'' @ lvl @ '';'' @ mo @ '';'' @ ob @ '';'' @ msg @ '';'' @ un) (CHR '';'') 5
        = [ts, lvl, mo, ob, msg, un]
    \<and> (strptime ts = Inr t \<and> index LOG_LEVELS (upper lvl) = Inr i \<and> \<not> protected msg \<longrightarrow>
         parse_log_line (ts @ '';'' @ lvl @ '';'' @ mo @ '';'' @ ob @ '';'' @ msg @ '';'' @ un)
           = Inr (t, int i, msg))"
proof (intro conjI impI)
  show "length (split s (CHR '';'') 5) \<le> 6"
    using length_split[of 5 s "CHR '';''"] by simp
  show "split (ts @ '';'' @ lvl @ '';'' @ mo @ '';'' @ ob @ '';'' @ msg @ '';'' @ un) (CHR '';'') 5
        = [ts, lvl, mo, ob, msg, un]"
    using assms by (rule split_six)
  assume "strptime ts = Inr t \<and> index LOG_LEVELS (upper lvl) = Inr i \<and> \<not> protected msg"
  then show "parse_log_line (ts @ '';'' @ lvl @ '';'' @ mo @ '';'' @ ob @ '';'' @ msg @ '';'' @ un)
           = Inr (t, int i, msg)"
    using parse_fields[OF assms, of t i un] by simp
qed

theorem split_round_trip_witness:
  "CHR '';'' \<notin> set ''01-02-2023 10:00:00.000000'' \<union> set ''ERROR'' \<union> set ''M'' \<union> set ''O''
      \<union> set ''oops''
   \<and> strptime ''01-02-2023 10:00:00.000000''
        = Inr \<lparr>year = 2023, month = 2, day = 1, hour = 10, minute = 0, second = 0,
               microsecond = 0\<rparr>
   \<and> index LOG_LEVELS (upper ''ERROR'') = Inr 0
   \<and> \<not> protected ''oops''
   \<and> split (''01-02-2023 10:00:00.000000'' @ '';'' @ ''ERROR'' @ '';'' @ ''M'' @ '';'' @ ''O''
        @ '';'' @ ''oops'' @ '';'' @ ''a;b'') (CHR '';'') 5
      = [''01-02-2023 10:00:00.000000'', ''ERROR'', ''M'', ''O'', ''oops'', ''a;b'']
   \<and> parse_log_line (''01-02-2023 10:00:00.000000'' @ '';'' @ ''ERROR'' @ '';'' @ ''M'' @ '';''
        @ ''O'' @ '';'' @ ''oops'' @ '';'' @ ''a;b'')
      = Inr (\<lparr>year = 2023, month = 2, day = 1, hour = 10, minute = 0, second = 0,
              microsecond = 0\<rparr>, int 0, ''oops'')"
proof -
  have a: "CHR '';'' \<notin> set ''01-02-2023 10:00:00.000000'' \<union> set ''ERROR'' \<union> set ''M''
      \<union> set ''O'' \<union> set ''oops''"
    by simp
  have c: "index LOG_LEVELS (upper ''ERROR'') = Inr 0"
    by (simp add: upper_defs LOG_LEVELS_def)
  have d: "\<not> protected ''oops''"
    by (simp add: protected_def startswith_def)
  show ?thesis
    using a sample_timestamp c d
      split_round_trip[OF a, where s = "[]" and un = "''a;b''" and i = 0]
    by blast
qed

text \<open>
  Claim C7. In a line of fields without semicolon whose timestamp and level are read,
  a message that begins with "Error invoking ", "Error executing " or "Error running "
  is returned up to its first colon, the colon left out (the whole message when it has
  no colon); any other message is returned as it is. The message "Error invoking Foo:
  bar: baz" becomes "Error invoking Foo".
\<close>

theorem message_truncation:
  assumes "CHR '';'' \<notin> set ts \<union> set lvl \<union> set mo \<union> set ob \<union> set msg"
    and "strptime ts = Inr t"
    and "index LOG_LEVELS (upper lvl) = Inr i"
  shows "\<exists>m. parse_log_line (ts @ '';'' @ lvl @ '';'' @ mo @ '';'' @ ob @ '';'' @ msg @ '';'' @ un)
        = Inr (t, int i, m)
      \<and> (if protected msg
          then \<exists>rest. msg = m @ rest \<and> CHR '':'' \<notin> set m \<and> (rest = [] \<or> hd rest = CHR '':'')
          else m = msg)"
proof (cases "protected msg")
  case False
  then show ?thesis
    using parse_fields[OF assms, of un] by simp
next
  case True
  let ?m = "takeWhile (\<lambda>c. c \<noteq> CHR '':'') msg"
  let ?rest = "dropWhile (\<lambda>c. c \<noteq> CHR '':'') msg"
  have "msg = ?m @ ?rest"
    by simp
  moreover have "CHR '':'' \<notin> set ?m"
    by (auto dest: set_takeWhileD)
  moreover have "?rest = [] \<or> hd ?rest = CHR '':''"
    using hd_dropWhile[of "\<lambda>c. c \<noteq> CHR '':''" msg] by auto
  ultimately have "\<exists>rest. msg = ?m @ rest \<and> CHR '':'' \<notin> set ?m
      \<and> (rest = [] \<or> hd rest = CHR '':'')"
    by blast
  with True show ?thesis
    using parse_fields[OF assms, of un] by simp
qed

lemma sample_truncation:
  "parse_log_line ''01-02-2023 10:00:00.000000;ERROR;M;O;Error invoking Foo: bar: baz;''
    = Inr (\<lparr>year = 2023, month = 2, day = 1, hour = 10, minute = 0, second = 0,
            microsecond = 0\<rparr>, 0, ''Error invoking Foo'')"
  by (simp add: parse_defs strptime_defs upper_defs)

theorem message_truncation_witness:
  "CHR '';'' \<notin> set ''01-02-2023 10:00:00.000000'' \<union> set ''ERROR'' \<union> set ''M'' \<union> set ''O''
      \<union> set ''Error invoking Foo: bar: baz''
   \<and> strptime ''01-02-2023 10:00:00.000000''
        = Inr \<lparr>year = 2023, month = 2, day = 1, hour = 10, minute = 0, second = 0,
               microsecond = 0\<rparr>
   \<and> index LOG_LEVELS (upper ''ERROR'') = Inr 0
   \<and> protected ''Error invoking Foo: bar: baz''
   \<and> (\<exists>m. parse_log_line (''01-02-2023 10:00:00.000000'' @ '';'' @ ''ERROR'' @ '';'' @ ''M''
          @ '';'' @ ''O'' @ '';'' @ ''Error invoking Foo: bar: baz'' @ '';'' @ [])
        = Inr (\<lparr>year = 2023, month = 2, day = 1, hour = 10, minute = 0, second = 0,
                microsecond = 0\<rparr>, int 0, m)
      \<and> (\<exists>rest. ''Error invoking Foo: bar: baz'' = m @ rest \<and> CHR '':'' \<notin> set m
            \<and> (rest = [] \<or> hd rest = CHR '':'')))
   \<and> parse_log_line ''01-02-2023 10:00:00.000000;ERROR;M;O;Error invoking Foo: bar: baz;''
        = Inr (\<lparr>year = 2023, month = 2, day = 1, hour = 10, minute = 0, second = 0,
                microsecond = 0\<rparr>, 0, ''Error invoking Foo'')"
proof -
  have a: "CHR '';'' \<notin> set ''01-02-2023 10:00:00.000000'' \<union> set ''ERROR'' \<union> set ''M''
      \<union> set ''O'' \<union> set ''Error invoking Foo: bar: baz''"
    by simp
  have c: "index LOG_LEVELS (upper ''ERROR'') = Inr 0"
    by (simp add: upper_defs LOG_LEVELS_def)
  have d: "protected ''Error invoking Foo: bar: baz''"
    by (simp add: protected_def startswith_def)
  from message_truncation[OF a sample_timestamp c, of "[]"] d
  have "\<exists>m. parse_log_line (''01-02-2023 10:00:00.000000'' @ '';'' @ ''ERROR'' @ '';'' @ ''M''
          @ '';'' @ ''O'' @ '';'' @ ''Error invoking Foo: bar: baz'' @ '';'' @ [])
        = Inr (\<lparr>year = 2023, month = 2, day = 1, hour = 10, minute = 0, second = 0,
                microsecond = 0\<rparr>, int 0, m)
      \<and> (\<exists>rest. ''Error invoking Foo: bar: baz'' = m @ rest \<and> CHR '':'' \<notin> set m
            \<and> (rest = [] \<or> hd rest = CHR '':''))"
    by (simp only: if_True)
  with a sample_timestamp c d sample_truncation show ?thesis
    by blast
qed

text \<open>
  Claim C8. A level token whose upper case is the word of \<open>LOG_LEVELS\<close> at index \<open>i\<close>
  (ERROR, WARNING, INFO, DEBUG, VERBOSE1, VERBOSE2 at 0 to 5) is resolved to \<open>i\<close>, and a
  line with this token, a timestamp \<^verbatim>\<open>strptime\<close> reads and other fields without
  semicolon is parsed with the level \<open>i\<close>. The tokens "error", "Error" and "ERROR" all
  give the level 0.
\<close>

theorem level_case_insensitive:
  assumes "i < length LOG_LEVELS" and "upper tok = LOG_LEVELS ! i"
  shows "index LOG_LEVELS (upper tok) = Inr i
    \<and> (strptime ts = Inr t \<and> CHR '';'' \<notin> set ts \<union> set mo \<union> set ob \<union> set msg \<longrightarrow>
        (\<exists>m. parse_log_line (ts @ '';'' @ tok @ '';'' @ mo @ '';'' @ ob @ '';'' @ msg @ '';'' @ un)
           = Inr (t, int i, m)))"
proof (intro conjI impI)
  show ix: "index LOG_LEVELS (upper tok) = Inr i"
    using assms by (simp add: index_LOG_LEVELS)
  assume h: "strptime ts = Inr t \<and> CHR '';'' \<notin> set ts \<union> set mo \<union> set ob \<union> set msg"
  have "CHR '';'' \<notin> set tok"
    using assms upper_semicolon[of tok] level_no_semicolon[of i] by auto
  with h have "CHR '';'' \<notin> set ts \<union> set tok \<union> set mo \<union> set ob \<union> set msg"
    by simp
  from parse_fields[OF this _ ix, of t un] h
  show "\<exists>m. parse_log_line (ts @ '';'' @ tok @ '';'' @ mo @ '';'' @ ob @ '';'' @ msg @ '';'' @ un)
           = Inr (t, int i, m)"
    by blast
qed

theorem level_case_insensitive_witness:
  "0 < length LOG_LEVELS
   \<and> upper ''error'' = LOG_LEVELS ! 0 \<and> upper ''Error'' = LOG_LEVELS ! 0
   \<and> upper ''ERROR'' = LOG_LEVELS ! 0
   \<and> index LOG_LEVELS (upper ''error'') = Inr 0
   \<and> index LOG_LEVELS (upper ''Error'') = Inr 0
   \<and> index LOG_LEVELS (upper ''ERROR'') = Inr 0
   \<and> index LOG_LEVELS (upper ''Verbose2'') = Inr 5
   \<and> strptime ''01-02-2023 10:00:00.000000''
        = Inr \<lparr>year = 2023, month = 2, day = 1, hour = 10, minute = 0, second = 0,
               microsecond = 0\<rparr>
   \<and> CHR '';'' \<notin> set ''01-02-2023 10:00:00.000000'' \<union> set ''M'' \<union> set ''O'' \<union> set ''oops''
   \<and> (\<exists>m. parse_log_line (''01-02-2023 10:00:00.000000'' @ '';'' @ ''error'' @ '';'' @ ''M''
            @ '';'' @ ''O'' @ '';'' @ ''oops'' @ '';'' @ [])
          = Inr (\<lparr>year = 2023, month = 2, day = 1, hour = 10, minute = 0, second = 0,
                 microsecond = 0\<rparr>, int 0, m))"
proof -
  have n: "0 < length LOG_LEVELS" "5 < length LOG_LEVELS"
    by (simp_all add: LOG_LEVELS_def)
  have u: "upper ''error'' = LOG_LEVELS ! 0" "upper ''Error'' = LOG_LEVELS ! 0"
    "upper ''ERROR'' = LOG_LEVELS ! 0" "upper ''Verbose2'' = LOG_LEVELS ! 5"
    by (simp_all add: upper_defs LOG_LEVELS_def)
  have a: "CHR '';'' \<notin> set ''01-02-2023 10:00:00.000000'' \<union> set ''M'' \<union> set ''O''
      \<union> set ''oops''"
    by simp
  show ?thesis
    using n(1) u(1,2,3) a sample_timestamp
      level_case_insensitive[OF n(1) u(1), where ts = "''01-02-2023 10:00:00.000000''"
        and mo = "''M''" and ob = "''O''" and msg = "''oops''" and un = "[]"]
      level_case_insensitive[OF n(1) u(2), where ts = "[]" and t = datetime_min and mo = "[]"
        and ob = "[]" and msg = "[]" and un = "[]"]
      level_case_insensitive[OF n(1) u(3), where ts = "[]" and t = datetime_min and mo = "[]"
        and ob = "[]" and msg = "[]" and un = "[]"]
      level_case_insensitive[OF n(2) u(4), where ts = "[]" and t = datetime_min and mo = "[]"
        and ob = "[]" and msg = "[]" and un = "[]"]
    by blast
qed

subsection \<open>Reading a file\<close>

lemmas reader_defs = read_log_files_def read_file_def append_entry_def is_new_entry_def
  file_lines_def getitem_def strip_def lstrip_def rstrip_def isspace_def endswith_def
  RuntimeLogLine_init_def

lemma is_new_entry_cases:
  "is_new_entry line = Inr (boundary line) \<or> is_new_entry line = Inl IndexError"
  by (auto simp: is_new_entry_def boundary_def getitem_def)

lemma is_new_entry_raises:
  "is_new_entry line = Inl IndexError \<longleftrightarrow>
     strip line \<noteq> [] \<and> (length line < 3 \<or> (line ! 2 = CHR ''-'' \<and> length line < 6))"
  by (auto simp: is_new_entry_def getitem_def)

text \<open>
  Claim C1 says that every line of fewer than six characters is a continuation line
  and that the content of a file never makes \<^verbatim>\<open>read_log_files\<close> raise. The program
  does not do this: on a line that is not blank, the test reads the characters at the
  indexes 2 and 5 without looking at the length of the line. A file whose second line
  is a closing brace makes \<^verbatim>\<open>read_log_files\<close> raise \<^verbatim>\<open>IndexError\<close>, and so does the test
  on a line of five characters with a hyphen at index 2.
\<close>

theorem short_line_raises:
  "read_log_files [(''runtime.log'',
      Some ''01-02-2023 10:00:00.000000;ERROR;M;O;oops;\<newline>}\<newline>'')] = Inl IndexError
   \<and> is_new_entry ''}\<newline>'' = Inl IndexError
   \<and> is_new_entry ''ab-cd'' = Inl IndexError"
  by (simp add: reader_defs)

subsection \<open>Blank files\<close>

lemma strip_spaces:
  assumes "list_all isspace s"
  shows "strip s = []"
proof -
  have blank: "dropWhile isspace s = []"
    using assms by (induction s) simp_all
  show ?thesis
    unfolding strip_def lstrip_def rstrip_def blank by simp
qed

lemma join_blank: "list_all (\<lambda>x. x = []) xs \<Longrightarrow> list_all isspace (join '' '' xs)"
  by (induction "'' ''" xs rule: join.induct) (simp_all add: isspace_def)

lemma for_line_blank:
  "list_all (\<lambda>line. strip line = []) ls \<Longrightarrow>
     for_line mk ls log_contents log_entry = Inr (log_contents, log_entry @ map strip ls)"
  by (induction ls arbitrary: log_entry) (simp_all add: is_new_entry_def)

lemma init_empty:
  "RuntimeLogLine_init [] = Inr \<lparr>timestamp = datetime_min, level = - 1,
     message = ''Invalid log line format''\<rparr>"
  by (simp add: RuntimeLogLine_init_def parse_log_line_def try_block_def split.simps
      invalid_def)

lemma read_file_blank:
  assumes "ls \<noteq> []" and "list_all (\<lambda>line. strip line = []) ls"
  shows "read_file RuntimeLogLine_init ls log_contents
    = Inr (log_contents @ [\<lparr>timestamp = datetime_min, level = - 1,
        message = ''Invalid log line format''\<rparr>])"
proof -
  have "list_all (\<lambda>x. x = []) (map strip ls)"
    using assms(2) by (simp add: list_all_iff)
  then have "strip (join '' '' (map strip ls)) = []"
    by (intro strip_spaces join_blank)
  with assms show ?thesis
    by (simp add: read_file_def for_line_blank append_entry_def init_empty)
qed

text \<open>
  Claim C10. A file whose name ends in ".log" and that has no line adds nothing to the
  list of entries. One that has lines, all of them blank, adds exactly one entry: the
  entry of the \<^verbatim>\<open>except\<close> branch, with the level -1 and the message "Invalid log line
  format".
\<close>

theorem blank_file:
  assumes "endswith filename ''.log''"
  shows "(file_lines text = [] \<longrightarrow>
        for_filename RuntimeLogLine_init ((filename, Some text) # rest) log_contents
          = for_filename RuntimeLogLine_init rest log_contents)
    \<and> (file_lines text \<noteq> [] \<and> list_all (\<lambda>line. strip line = []) (file_lines text) \<longrightarrow>
        for_filename RuntimeLogLine_init ((filename, Some text) # rest) log_contents
          = for_filename RuntimeLogLine_init rest
              (log_contents @ [\<lparr>timestamp = datetime_min, level = - 1,
                 message = ''Invalid log line format''\<rparr>]))"
  using assms by (simp add: read_file_blank) (simp add: read_file_def)

theorem blank_file_witness:
  "endswith ''runtime.log'' ''.log''
   \<and> file_lines [] = []
   \<and> read_log_files [(''runtime.log'', Some [])] = Inr []
   \<and> file_lines ''  \<newline>\<newline>'' \<noteq> []
   \<and> list_all (\<lambda>line. strip line = []) (file_lines ''  \<newline>\<newline>'')
   \<and> read_log_files [(''runtime.log'', Some ''  \<newline>\<newline>'')]
       = Inr [\<lparr>timestamp = datetime_min, level = - 1, message = ''Invalid log line format''\<rparr>]"
proof -
  have a: "endswith ''runtime.log'' ''.log''"
    by (simp add: endswith_def)
  have b: "file_lines [] = []"
    by (simp add: file_lines_def)
  have c: "file_lines ''  \<newline>\<newline>'' \<noteq> []"
    "list_all (\<lambda>line. strip line = []) (file_lines ''  \<newline>\<newline>'')"
    by (simp_all add: file_lines_def strip_def lstrip_def rstrip_def isspace_def)
  show ?thesis
    using a b c blank_file[OF a, of "[]" "[]" "[]"] blank_file[OF a, of "''  \<newline>\<newline>''" "[]" "[]"]
    by (simp add: read_log_files_def)
qed

subsection \<open>The texts passed to the parser\<close>

lemma for_line_entries:
  assumes "list_all (\<lambda>line. is_new_entry line \<noteq> Inl IndexError) ls"
  shows "(case for_line (\<lambda>s. Inr (f s)) ls lc le of
            Inl e \<Rightarrow> Inl e
          | Inr (lc', le') \<Rightarrow>
              if le' \<noteq> [] then append_entry (\<lambda>s. Inr (f s)) lc' le' else Inr lc')
    = Inr (lc @
        (if le = [] then map (\<lambda>entry. f (strip (merged entry))) (logical_entries ls)
         else f (strip (join '' '' (le @ map strip (takeWhile (\<lambda>x. \<not> boundary x) ls))))
              # map (\<lambda>entry. f (strip (merged entry)))
                  (logical_entries (dropWhile (\<lambda>x. \<not> boundary x) ls))))"
  using assms
proof (induction ls arbitrary: lc le)
  case Nil
  then show ?case
    by (simp add: append_entry_def)
next
  case (Cons l ls)
  from Cons.prems have new: "is_new_entry l = Inr (boundary l)"
    using is_new_entry_cases[of l] by simp
  from Cons.prems have rest: "list_all (\<lambda>line. is_new_entry line \<noteq> Inl IndexError) ls"
    by simp
  show ?case
  proof (cases "boundary l \<and> le \<noteq> []")
    case True
    with new show ?thesis
      using Cons.IH[OF rest, of "lc @ [f (strip (join '' '' le))]" "[strip l]"]
      by (simp add: append_entry_def merged_def)
  next
    case False
    with new show ?thesis
      using Cons.IH[OF rest, of lc "le @ [strip l]"]
      by (auto simp: merged_def)
  qed
qed

text \<open>
  Claim C6, amended. In a file where the boundary test raises on no line, the
  constructor is called once for each logical entry, in their order, with the lines
  of the entry each stripped, joined with one space, and the joined text stripped
  once more; a boundary line after the first line closes the entry before it, and the
  lines left at the end of the file are the last entry. The two lines of the
  specification's example give the one text it states.
\<close>

theorem entry_texts:
  assumes "list_all (\<lambda>line. is_new_entry line \<noteq> Inl IndexError) ls"
  shows "read_file (\<lambda>s. Inr (f s)) ls log_contents
    = Inr (log_contents @ map (\<lambda>entry. f (strip (merged entry))) (logical_entries ls))"
  using for_line_entries[OF assms, of f log_contents "[]"]
  by (simp add: read_file_def)

theorem entry_texts_witness:
  "list_all (\<lambda>line. is_new_entry line \<noteq> Inl IndexError)
     [''01-02-2023 10:00:00.000000;ERROR;M;O;oops'', ''more detail'']
   \<and> read_file (\<lambda>s. Inr s)
        [''01-02-2023 10:00:00.000000;ERROR;M;O;oops'', ''more detail''] []
      = Inr [''01-02-2023 10:00:00.000000;ERROR;M;O;oops more detail'']
   \<and> map (\<lambda>entry. strip (merged entry))
        (logical_entries [''01-02-2023 10:00:00.000000;ERROR;M;O;oops'', ''more detail''])
      = [''01-02-2023 10:00:00.000000;ERROR;M;O;oops more detail'']"
proof -
  have a: "list_all (\<lambda>line. is_new_entry line \<noteq> Inl IndexError)
     [''01-02-2023 10:00:00.000000;ERROR;M;O;oops'', ''more detail'']"
    by (simp add: reader_defs)
  have b: "map (\<lambda>entry. strip (merged entry))
        (logical_entries [''01-02-2023 10:00:00.000000;ERROR;M;O;oops'', ''more detail''])
      = [''01-02-2023 10:00:00.000000;ERROR;M;O;oops more detail'']"
    by (simp add: boundary_def merged_def reader_defs)
  show ?thesis
    using a b entry_texts[OF a, of "\<lambda>s. s" "[]"] by simp
qed

text \<open>
  Claim C6 as stated fails: the text passed to the parser is not always the stripped
  lines joined with one space. When the last line of an entry is blank, the joined
  text ends with a space, which the program strips before it calls the constructor.
\<close>

theorem merge_counterexample:
  "\<not> (read_file (\<lambda>s. Inr s)
        [''01-02-2023 10:00:00.000000;ERROR;M;O;oops;\<newline>'', ''\<newline>''] []
      = Inr (map merged
          (logical_entries [''01-02-2023 10:00:00.000000;ERROR;M;O;oops;\<newline>'', ''\<newline>''])))"
  by (simp add: boundary_def merged_def reader_defs)

lemma merged_example_invalid:
  "parse_log_line ''01-02-2023 10:00:00.000000;ERROR;M;O;oops more detail'' = Inr invalid"
  by (simp add: parse_defs)

lemma merge_counterexample_values:
  "read_file (\<lambda>s. Inr s)
        [''01-02-2023 10:00:00.000000;ERROR;M;O;oops;\<newline>'', ''\<newline>''] []
      = Inr [''01-02-2023 10:00:00.000000;ERROR;M;O;oops;'']
   \<and> map merged
        (logical_entries [''01-02-2023 10:00:00.000000;ERROR;M;O;oops;\<newline>'', ''\<newline>''])
      = [''01-02-2023 10:00:00.000000;ERROR;M;O;oops; '']"
  by (simp add: boundary_def merged_def reader_defs)

subsection \<open>The lines printed\<close>












subsection \<open>Digits\<close>

lemma digit_cases:
  "isdigit c \<longleftrightarrow> c = CHR ''0'' \<or> c = CHR ''1'' \<or> c = CHR ''2'' \<or> c = CHR ''3'' \<or> c = CHR ''4''
     \<or> c = CHR ''5'' \<or> c = CHR ''6'' \<or> c = CHR ''7'' \<or> c = CHR ''8'' \<or> c = CHR ''9''"
  by (auto simp: isdigit_def digits_def)

lemma digit_of_le: "isdigit c \<Longrightarrow> digit_of c \<le> 9"
  by (auto simp: digit_cases digit_of_def)

lemma digit_not_space: "isdigit c \<Longrightarrow> \<not> isspace c"
  by (auto simp: digit_cases isspace_def)

lemma cls_Nil: "cls ms [] = None"
  by (simp add: cls_def)

lemma cls_digits: "cls digits (c # r) = (if isdigit c then Some ([c], r) else None)"
  by (simp add: cls_def isdigit_def)

lemma cls_01: "cls ''01'' (c # r) = (if digit_between c 0 1 then Some ([c], r) else None)"
  by (auto simp: cls_def digit_between_def digit_cases digit_of_def)

lemma cls_12: "cls ''12'' (c # r) = (if digit_between c 1 2 then Some ([c], r) else None)"
  by (auto simp: cls_def digit_between_def digit_cases digit_of_def)

lemma cls_012: "cls ''012'' (c # r) = (if digit_between c 0 2 then Some ([c], r) else None)"
  by (auto simp: cls_def digit_between_def digit_cases digit_of_def)

lemma cls_0123: "cls ''0123'' (c # r) = (if digit_between c 0 3 then Some ([c], r) else None)"
  by (auto simp: cls_def digit_between_def digit_cases digit_of_def)

lemma cls_012345:
  "cls ''012345'' (c # r) = (if digit_between c 0 5 then Some ([c], r) else None)"
  by (auto simp: cls_def digit_between_def digit_cases digit_of_def)

lemma cls_123456789:
  "cls ''123456789'' (c # r) = (if digit_between c 1 9 then Some ([c], r) else None)"
  by (auto simp: cls_def digit_between_def digit_cases digit_of_def)

lemma lit_0: "lit (CHR ''0'') (c # r) = (if digit_between c 0 0 then Some ([c], r) else None)"
  by (auto simp: lit_def cls_def digit_between_def digit_cases digit_of_def)

lemma lit_1: "lit (CHR ''1'') (c # r) = (if digit_between c 1 1 then Some ([c], r) else None)"
  by (auto simp: lit_def cls_def digit_between_def digit_cases digit_of_def)

lemma lit_2: "lit (CHR ''2'') (c # r) = (if digit_between c 2 2 then Some ([c], r) else None)"
  by (auto simp: lit_def cls_def digit_between_def digit_cases digit_of_def)

lemma lit_3: "lit (CHR ''3'') (c # r) = (if digit_between c 3 3 then Some ([c], r) else None)"
  by (auto simp: lit_def cls_def digit_between_def digit_cases digit_of_def)

lemma lit_6: "lit (CHR ''6'') (c # r) = (if digit_between c 6 6 then Some ([c], r) else None)"
  by (auto simp: lit_def cls_def digit_between_def digit_cases digit_of_def)

lemma lit_Nil: "lit x [] = None"
  by (simp add: lit_def cls_def)

lemma lit_Cons: "lit x (c # r) = (if c = x then Some ([c], r) else None)"
  by (simp add: lit_def cls_def)

lemmas scan_simps = cls_Nil cls_digits cls_01 cls_12 cls_012 cls_0123 cls_012345
  cls_123456789 lit_0 lit_1 lit_2 lit_3 lit_6 lit_Nil

lemma strip_no_space:
  assumes "list_all (\<lambda>c. \<not> isspace c) g"
  shows "strip g = g"
proof -
  have a: "dropWhile isspace g = g"
    using assms by (cases g) simp_all
  have "list_all (\<lambda>c. \<not> isspace c) (rev g)"
    using assms by (simp add: list_all_iff)
  then have b: "dropWhile isspace (rev g) = rev g"
    by (cases "rev g") simp_all
  show ?thesis
    unfolding strip_def lstrip_def rstrip_def a b by simp
qed

lemma strip_digits: "list_all isdigit g \<Longrightarrow> strip g = g"
  by (rule strip_no_space) (auto simp: list_all_iff dest: digit_not_space)

lemma py_int_digits:
  "list_all isdigit g \<Longrightarrow> py_int g = foldl (\<lambda>n c. 10 * n + digit_of c) 0 g"
  by (simp add: py_int_def strip_digits)

lemma py_int_1: "isdigit a \<Longrightarrow> py_int [a] = digit_of a"
  by (simp add: py_int_digits)

lemma py_int_2: "isdigit a \<Longrightarrow> isdigit b \<Longrightarrow> py_int [a, b] = 10 * digit_of a + digit_of b"
  by (simp add: py_int_digits)

lemma py_int_space: "isdigit b \<Longrightarrow> py_int [CHR '' '', b] = digit_of b"
  by (simp add: py_int_def strip_def lstrip_def rstrip_def digit_not_space) (simp add: isspace_def)

lemma py_int_snoc:
  "list_all isdigit g \<Longrightarrow> isdigit c \<Longrightarrow> py_int (g @ [c]) = 10 * py_int g + digit_of c"
  by (simp add: py_int_digits)

lemma py_int_less: "list_all isdigit g \<Longrightarrow> py_int g < 10 ^ length g"
proof (induction g rule: rev_induct)
  case Nil
  then show ?case
    by (simp add: py_int_digits)
next
  case (snoc c g)
  then have "py_int g < 10 ^ length g" and "digit_of c \<le> 9"
    by (simp_all add: digit_of_le)
  moreover from snoc.prems have "py_int (g @ [c]) = 10 * py_int g + digit_of c"
    by (simp add: py_int_snoc)
  ultimately show ?case
    by simp
qed

lemma alt_Cons: "alt (p # ps) s = (case p s of None \<Rightarrow> alt ps s | Some x \<Rightarrow> Some x)"
  by simp

lemma lit_space: "lit (CHR '' '') (c # r) = (if c = CHR '' '' then Some ([c], r) else None)"
  by (rule lit_Cons)



lemma isdigit_between: "isdigit c \<longleftrightarrow> digit_between c 0 9"
  by (auto simp: digit_between_def digit_of_le)

lemma space_not_digit: "\<not> isdigit (CHR '' '')"
  by (simp add: digit_cases)






























lemma length_1: "length g = 1 \<longleftrightarrow> (\<exists>a. g = [a])"
  by (cases g) auto

lemma length_2: "length g = 2 \<longleftrightarrow> (\<exists>a b. g = [a, b])"
  by (cases g; cases "tl g") auto

lemma numeral_text_cases:
  "numeral_text g lo hi \<longleftrightarrow>
     (\<exists>a. g = [a] \<and> digit_between a 0 9 \<and> lo \<le> digit_of a \<and> digit_of a \<le> hi)
     \<or> (\<exists>a b. g = [a, b] \<and> digit_between a 0 9 \<and> digit_between b 0 9
          \<and> lo \<le> 10 * digit_of a + digit_of b
          \<and> 10 * digit_of a + digit_of b \<le> hi)"
  unfolding numeral_text_def length_1 length_2
  by (auto simp: py_int_1 py_int_2 isdigit_between[symmetric])

lemma re_d_complete:
  assumes "day_text g" and "\<not> isdigit c"
  shows "re_d (g @ c # r) = Some (g, c # r)"
proof -
  from assms(1) consider
    (one) a where "g = [a]" "digit_between a 0 9" "1 \<le> digit_of a"
    | (two) a b where "g = [a, b]" "digit_between a 0 9" "digit_between b 0 9"
        "1 \<le> 10 * digit_of a + digit_of b"
        "10 * digit_of a + digit_of b \<le> 31"
    | (space) b where "g = [CHR '' '', b]" "digit_between b 1 9"
    unfolding day_text_def numeral_text_cases length_2 by auto
  then show ?thesis
  proof cases
    case one
    with assms(2) show ?thesis
      by (auto simp: re_d_def scan_simps lit_space digit_between_def)
  next
    case two
    with assms(2) show ?thesis
      by (auto simp: re_d_def scan_simps lit_space digit_between_def)
  next
    case space
    with assms(2) show ?thesis
      by (auto simp: re_d_def scan_simps lit_space digit_between_def space_not_digit)
  qed
qed


lemma re_m_complete:
  assumes "numeral_text g 1 12" and "\<not> isdigit c"
  shows "re_m (g @ c # r) = Some (g, c # r)"
  using assms unfolding numeral_text_cases
  by (auto simp: re_m_def scan_simps digit_between_def)

lemma re_H_complete:
  assumes "numeral_text g 0 23" and "\<not> isdigit c"
  shows "re_H (g @ c # r) = Some (g, c # r)"
  using assms unfolding numeral_text_cases
  by (auto simp: re_H_def scan_simps digit_between_def)

lemma re_M_complete:
  assumes "numeral_text g 0 59" and "\<not> isdigit c"
  shows "re_M (g @ c # r) = Some (g, c # r)"
  using assms unfolding numeral_text_cases
  by (auto simp: re_M_def scan_simps digit_between_def)

lemma re_S_complete:
  assumes "numeral_text g 0 59" and "\<not> isdigit c"
  shows "re_S (g @ c # r) = Some (g, c # r)"
  using assms unfolding numeral_text_cases
  by (auto simp: re_S_def scan_simps digit_between_def)

lemma re_Y_complete: "year_text g \<Longrightarrow> re_Y (g @ r) = Some (g, r)"
proof -
  assume "year_text g"
  then obtain a b c d where "g = [a, b, c, d]" "isdigit a" "isdigit b" "isdigit c" "isdigit d"
    unfolding year_text_def
    by (cases g; cases "tl g"; cases "tl (tl g)"; cases "tl (tl (tl g))") auto
  then show ?thesis
    by (simp add: re_Y_def cls_digits)
qed

lemma many1_complete:
  assumes "space_text w" and "\<not> isspace c"
  shows "many1 isspace (w @ c # r) = Some (w, c # r)"
proof -
  from assms have "takeWhile isspace (w @ c # r) = w" "dropWhile isspace (w @ c # r) = c # r"
    by (simp_all add: space_text_def list_all_iff takeWhile_append2 dropWhile_append2)
  with assms(1) show ?thesis
    by (simp add: many1_def space_text_def)
qed

lemma re_f_complete:
  assumes "fraction_text f"
  shows "re_f f = Some (f, [])"
proof -
  from assms have all: "takeWhile isdigit f = f"
    by (simp add: fraction_text_def list_all_iff takeWhile_eq_all_conv)
  from assms have len: "take 6 f = f" "f \<noteq> []"
    by (auto simp: fraction_text_def)
  show ?thesis
    unfolding re_f_def many_def Let_def all len(1) using len(2) by simp
qed

lemma numeral_text_hd: "numeral_text g lo hi \<Longrightarrow> \<exists>c r. g = c # r \<and> \<not> isspace c"
  unfolding numeral_text_cases by (auto simp: digit_between_def dest: digit_not_space)

lemma sep_not_digit:
  "\<not> isdigit (CHR ''-'')" "\<not> isdigit (CHR '':'')" "\<not> isdigit (CHR ''.'')"
  by (simp_all add: digit_cases)

lemma format_regex_complete:
  assumes "day_text d" "numeral_text m 1 12" "year_text Y" "space_text w" "numeral_text H 0 23"
    "numeral_text M 0 59" "numeral_text S 0 59" "fraction_text f"
  shows "format_regex (d @ ''-'' @ m @ ''-'' @ Y @ w @ H @ '':'' @ M @ '':'' @ S @ ''.'' @ f)
    = Some ((d, m, Y, H, M, S, f), [])"
proof -
  from assms(5) obtain c r where H: "H = c # r" "\<not> isspace c"
    by (auto dest: numeral_text_hd)
  have "many1 isspace (w @ H @ '':'' @ M @ '':'' @ S @ ''.'' @ f)
      = Some (w, H @ '':'' @ M @ '':'' @ S @ ''.'' @ f)"
    using many1_complete[OF assms(4) H(2)] H(1) by simp
  then show ?thesis
    using assms
    by (simp add: format_regex_def re_d_complete re_m_complete re_Y_complete re_H_complete
        re_M_complete re_S_complete re_f_complete sep_not_digit lit_Cons)
qed


lemma day_text_positive: "day_text d \<Longrightarrow> 1 \<le> py_int d"
  unfolding day_text_def length_2
  by (auto simp: numeral_text_def digit_between_def py_int_space)

lemma fraction_padded:
  assumes "fraction_text f"
  shows "py_int (f @ replicate (6 - length f) (CHR ''0'')) \<le> 999999"
proof -
  have "isdigit (CHR ''0'')"
    by (simp add: digit_cases)
  with assms have "list_all isdigit (f @ replicate (6 - length f) (CHR ''0''))"
    by (auto simp: fraction_text_def list_all_iff)
  from py_int_less[OF this] assms show ?thesis
    by (simp add: fraction_text_def)
qed

lemma strptime_complete:
  assumes "day_text d" "numeral_text m 1 12" "year_text Y" "space_text w" "numeral_text H 0 23"
    "numeral_text M 0 59" "numeral_text S 0 59" "fraction_text f"
    and "1 \<le> py_int Y" and "py_int d \<le> days_in_month (py_int Y) (py_int m)"
  shows "strptime (d @ ''-'' @ m @ ''-'' @ Y @ w @ H @ '':'' @ M @ '':'' @ S @ ''.'' @ f)
    = Inr \<lparr>year = py_int Y, month = py_int m, day = py_int d, hour = py_int H,
           minute = py_int M, second = py_int S,
           microsecond = py_int (f @ replicate (6 - length f) (CHR ''0''))\<rparr>"
proof -
  from assms(3) have "py_int Y < 10 ^ 4"
    using py_int_less[of Y] by (simp add: year_text_def)
  then have "py_int Y \<le> 9999"
    by simp
  moreover note day_text_positive[OF assms(1)] fraction_padded[OF assms(8)]
  moreover from assms(2,5,6,7) have "1 \<le> py_int m" "py_int m \<le> 12" "py_int H \<le> 23"
    "py_int M \<le> 59" "py_int S \<le> 59"
    by (simp_all add: numeral_text_def)
  ultimately have "new_datetime (py_int Y) (py_int m) (py_int d) (py_int H) (py_int M) (py_int S)
      (py_int (f @ replicate (6 - length f) (CHR ''0'')))
    = Inr \<lparr>year = py_int Y, month = py_int m, day = py_int d, hour = py_int H,
           minute = py_int M, second = py_int S,
           microsecond = py_int (f @ replicate (6 - length f) (CHR ''0''))\<rparr>"
    using assms(9,10) by (simp add: new_datetime_def)
  then show ?thesis
    unfolding strptime_def format_regex_complete[OF assms(1-8)] by simp
qed








lemma exact_timestamp: "exact_pattern ''01-02-2023 10:00:00.000000''"
  by (simp add: exact_pattern_def digit_cases)

subsection \<open>Further facts\<close>

text \<open>
  The constructor raises nothing, so a file on whose lines the boundary test does not
  raise is read without an exception; and a timestamp of the exact pattern
  \<^verbatim>\<open>DD-MM-YYYY HH:MM:SS.ffffff\<close> whose numbers are a date and a time is read by
  \<^verbatim>\<open>strptime\<close>, field by field.
\<close>

lemma init_total:
  "RuntimeLogLine_init s
    = Inr (case parse_log_line s of
             Inr (t, l, m) \<Rightarrow> \<lparr>timestamp = t, level = l, message = m\<rparr>
           | Inl e \<Rightarrow> \<lparr>timestamp = datetime_min, level = - 1, message = []\<rparr>)"
  using parse_log_line_cases[of s]
  by (cases "parse_log_line s") (auto simp: RuntimeLogLine_init_def split: prod.splits)

lemma exact_pattern_fields:
  assumes "exact_pattern ts"
  shows "\<exists>d m Y H M S f.
      ts = d @ ''-'' @ m @ ''-'' @ Y @ '' '' @ H @ '':'' @ M @ '':'' @ S @ ''.'' @ f
    \<and> length d = 2 \<and> list_all isdigit d \<and> length m = 2 \<and> list_all isdigit m
    \<and> year_text Y \<and> length H = 2 \<and> list_all isdigit H \<and> length M = 2 \<and> list_all isdigit M
    \<and> length S = 2 \<and> list_all isdigit S \<and> length f = 6 \<and> list_all isdigit f"
proof -
  let ?d = "take 2 ts" and ?m = "take 2 (drop 3 ts)" and ?Y = "take 4 (drop 6 ts)"
    and ?H = "take 2 (drop 11 ts)" and ?M = "take 2 (drop 14 ts)" and ?S = "take 2 (drop 17 ts)"
    and ?f = "drop 20 ts"
  from assms have len: "length ts = 26"
    by (simp add: exact_pattern_def)
  have cut: "\<And>n k. n + k < length ts \<Longrightarrow>
      drop n ts = take k (drop n ts) @ ts ! (n + k) # drop (Suc (n + k)) ts"
    by (metis Cons_nth_drop_Suc add.commute append_take_drop_id drop_drop)
  have "ts = ?d @ ts ! 2 # drop 3 ts"
    using cut[of 0 2] len by (simp add: eval_nat_numeral)
  also have "drop 3 ts = ?m @ ts ! 5 # drop 6 ts"
    using cut[of 3 2] len by (simp add: eval_nat_numeral)
  also have "drop 6 ts = ?Y @ ts ! 10 # drop 11 ts"
    using cut[of 6 4] len by (simp add: eval_nat_numeral)
  also have "drop 11 ts = ?H @ ts ! 13 # drop 14 ts"
    using cut[of 11 2] len by (simp add: eval_nat_numeral)
  also have "drop 14 ts = ?M @ ts ! 16 # drop 17 ts"
    using cut[of 14 2] len by (simp add: eval_nat_numeral)
  also have "drop 17 ts = ?S @ ts ! 19 # drop 20 ts"
    using cut[of 17 2] len by (simp add: eval_nat_numeral)
  finally have "ts = ?d @ ''-'' @ ?m @ ''-'' @ ?Y @ '' '' @ ?H @ '':'' @ ?M @ '':'' @ ?S @ ''.'' @ ?f"
    using assms by (simp add: exact_pattern_def)
  moreover from assms len have "length ?d = 2" "list_all isdigit ?d" "length ?m = 2"
    "list_all isdigit ?m" "year_text ?Y" "length ?H = 2" "list_all isdigit ?H" "length ?M = 2"
    "list_all isdigit ?M" "length ?S = 2" "list_all isdigit ?S" "length ?f = 6"
    "list_all isdigit ?f"
    by (simp_all add: exact_pattern_def year_text_def)
  ultimately show ?thesis
    by blast
qed


lemma days_in_month_le: "days_in_month y m \<le> 31"
  by (simp add: days_in_month_def)

lemma exact_pattern_accepted:
  assumes "exact_pattern ts"
    and "1 \<le> py_int (take 2 ts)"
    and "py_int (take 2 ts) \<le> days_in_month (py_int (take 4 (drop 6 ts))) (py_int (take 2 (drop 3 ts)))"
    and "1 \<le> py_int (take 2 (drop 3 ts))" and "py_int (take 2 (drop 3 ts)) \<le> 12"
    and "1 \<le> py_int (take 4 (drop 6 ts))"
    and "py_int (take 2 (drop 11 ts)) \<le> 23" and "py_int (take 2 (drop 14 ts)) \<le> 59"
    and "py_int (take 2 (drop 17 ts)) \<le> 59"
  shows "strptime ts
    = Inr \<lparr>year = py_int (take 4 (drop 6 ts)), month = py_int (take 2 (drop 3 ts)),
           day = py_int (take 2 ts), hour = py_int (take 2 (drop 11 ts)),
           minute = py_int (take 2 (drop 14 ts)), second = py_int (take 2 (drop 17 ts)),
           microsecond = py_int (drop 20 ts)\<rparr>"
proof -
  from exact_pattern_fields[OF assms(1)] obtain d m Y H M S f where
    ts: "ts = d @ ''-'' @ m @ ''-'' @ Y @ '' '' @ H @ '':'' @ M @ '':'' @ S @ ''.'' @ f"
    and f: "length d = 2" "list_all isdigit d" "length m = 2" "list_all isdigit m"
      "year_text Y" "length H = 2" "list_all isdigit H" "length M = 2" "list_all isdigit M"
      "length S = 2" "list_all isdigit S" "length f = 6" "list_all isdigit f"
    by blast
  from f(5) have Y4: "length Y = 4"
    by (simp add: year_text_def)
  from ts f Y4 have parts: "take 2 ts = d" "take 2 (drop 3 ts) = m" "take 4 (drop 6 ts) = Y"
    "take 2 (drop 11 ts) = H" "take 2 (drop 14 ts) = M" "take 2 (drop 17 ts) = S"
    "drop 20 ts = f"
    by simp_all
  from assms(3) have "py_int (take 2 ts) \<le> 31"
    using days_in_month_le[of "py_int (take 4 (drop 6 ts))" "py_int (take 2 (drop 3 ts))"]
    by linarith
  with assms f have texts: "day_text d" "numeral_text m 1 12" "numeral_text H 0 23"
    "numeral_text M 0 59" "numeral_text S 0 59" "fraction_text f" "space_text '' ''"
    unfolding parts by (simp_all add: day_text_def numeral_text_def fraction_text_def
      space_text_def isspace_def)
  from assms(3,6) have v: "1 \<le> py_int Y" "py_int d \<le> days_in_month (py_int Y) (py_int m)"
    unfolding parts by simp_all
  have "strptime (d @ ''-'' @ m @ ''-'' @ Y @ '' '' @ H @ '':'' @ M @ '':'' @ S @ ''.'' @ f)
    = Inr \<lparr>year = py_int Y, month = py_int m, day = py_int d, hour = py_int H,
           minute = py_int M, second = py_int S,
           microsecond = py_int (f @ replicate (6 - length f) (CHR ''0''))\<rparr>"
    by (rule strptime_complete[OF texts(1,2) f(5) texts(7,3,4,5,6) v])
  with f(12) show ?thesis
    unfolding parts unfolding ts by simp
qed


lemma read_file_entries:
  assumes "list_all (\<lambda>line. is_new_entry line \<noteq> Inl IndexError) ls"
  shows "\<exists>f. (\<forall>s. RuntimeLogLine_init s = Inr (f s))
    \<and> read_file RuntimeLogLine_init ls log_contents
        = Inr (log_contents @ map (\<lambda>entry. f (strip (merged entry))) (logical_entries ls))"
proof -
  define f where "f s = (case parse_log_line s of
             Inr (t, l, m) \<Rightarrow> \<lparr>timestamp = t, level = l, message = m\<rparr>
           | Inl e \<Rightarrow> \<lparr>timestamp = datetime_min, level = - 1, message = []\<rparr>)" for s
  have init: "RuntimeLogLine_init s = Inr (f s)" for s
    by (simp add: f_def init_total)
  then have eq: "RuntimeLogLine_init = (\<lambda>s. Inr (f s))"
    by (intro ext)
  have "read_file RuntimeLogLine_init ls log_contents
      = Inr (log_contents @ map (\<lambda>entry. f (strip (merged entry))) (logical_entries ls))"
    unfolding eq using for_line_entries[OF assms, of f log_contents "[]"]
    by (simp add: read_file_def)
  with init show ?thesis
    by blast
qed

end
